theory Spec2Isabelle
  imports Complex_Main
begin

chapter \<open>Openlist-Ani: transition values, feed ingestion and chat history\<close>

text \<open>
  A shallow embedding of three parts of the repository:
  \<^item> \<^verbatim>\<open>core/download/downloader/base.py\<close>: the dataclass \<^verbatim>\<open>StateTransition\<close> and its
    four semantic constructors;
  \<^item> \<^verbatim>\<open>assistant/telegram_assistant.py\<close>: \<^verbatim>\<open>TelegramAssistant._append_history\<close>;
  \<^item> \<^verbatim>\<open>core/rss.py\<close>: the class \<^verbatim>\<open>RSSManager\<close> with \<^verbatim>\<open>check_update\<close> and its helpers.
  The definitions come first, the verified properties afterwards.
\<close>

section \<open>Model\<close>

subsection \<open>\<^verbatim>\<open>StateTransition\<close> (base.py)\<close>

text \<open>
  Modelled from the spec: the enumeration \<^verbatim>\<open>DownloadState\<close> lives in
  \<^verbatim>\<open>core/download/model/task.py\<close>, which is not among the sources; the lifecycle states
  are those of the spec's data model (``Pending, Downloading, Downloaded, PostProcessing,
  Completed'' and the terminal ``Failed''). The dataclass below does not depend on it: it is
  polymorphic in the type of states.
\<close>

datatype DownloadState =
  Pending | Downloading | Downloaded | PostProcessing | Completed | Failed

text \<open>
  The dataclass has four fields. \<^verbatim>\<open>Optional[...]\<close> fields are options, with \<open>None\<close> for
  Python's \<^verbatim>\<open>None\<close>. The delay is a Python number that the constructors only store and
  never compute with; it is modelled as a real number.
\<close>

record 's StateTransition =
  success :: bool
  next_state :: "'s option"
  delay_seconds :: real
  error_message :: "string option"

text \<open>
  \<^verbatim>\<open>cls(success=..., next_state=..., delay_seconds=..., error_message=...)\<close>: the generated
  initialiser; the defaults \<^verbatim>\<open>None\<close>, \<^verbatim>\<open>0\<close>, \<^verbatim>\<open>None\<close> of the last three fields are written
  out at each call below.
\<close>

definition ok :: "'s option \<Rightarrow> 's StateTransition" where
  "ok ns = \<lparr>success = True, next_state = ns, delay_seconds = 0, error_message = None\<rparr>"

definition transition :: "'s \<Rightarrow> 's StateTransition" where
  "transition ns = ok (Some ns)"

definition poll :: "'s \<Rightarrow> real \<Rightarrow> 's StateTransition" where
  "poll st d = \<lparr>success = True, next_state = Some st, delay_seconds = d, error_message = None\<rparr>"

definition fail :: "string \<Rightarrow> 's StateTransition" where
  "fail msg = \<lparr>success = False, next_state = None, delay_seconds = 0, error_message = Some msg\<rparr>"


subsection \<open>\<^verbatim>\<open>TelegramAssistant._append_history\<close> (telegram_assistant.py)\<close>

text \<open>
  A message is a Python dict with string keys and values, kept as an association list in
  insertion order: \<^verbatim>\<open>{"role": "user", "content": user_text}\<close>.
\<close>

type_synonym message = "(string \<times> string) list"

text \<open>
  The slice \<^verbatim>\<open>xs[i:]\<close> of Python, for any integer \<open>i\<close>: a negative start counts from the end,
  and a start outside the list is clamped to it. In particular \<^verbatim>\<open>xs[-0:]\<close> is the whole list.
\<close>

definition slice_from :: "'a list \<Rightarrow> int \<Rightarrow> 'a list" where
  "slice_from xs i =
     (let n = int (length xs);
          start = (if i < 0 then max 0 (n + i) else min i n)
      in drop (nat start) xs)"

text \<open>
  \<^verbatim>\<open>_append_history(self, history, user_text, response)\<close> mutates the list \<^verbatim>\<open>history\<close> in
  place; the model returns the list as it is afterwards. \<^verbatim>\<open>self.assistant.max_history\<close> is a
  Python integer read from the \<^verbatim>\<open>AniAssistant\<close> object (a class that is not among the
  sources) and is taken as the first parameter.
\<close>

definition append_history :: "int \<Rightarrow> message list \<Rightarrow> string \<Rightarrow> string \<Rightarrow> message list" where
  "append_history assistant_max_history history user_text response =
     (let history1 = history @ [[(''role'', ''user''), (''content'', user_text)]];
          history2 = history1 @ [[(''role'', ''assistant''), (''content'', response)]];
          max_history = assistant_max_history * 2
      in if int (length history2) > max_history
         then slice_from history2 (- max_history)
         else history2)"


subsection \<open>The collaborators of \<^verbatim>\<open>RSSManager\<close> (rss.py)\<close>

text \<open>
  Modelled from the spec: the class \<^verbatim>\<open>AnimeResourceInfo\<close> is declared in
  \<^verbatim>\<open>core/website/model.py\<close>, which is not among the sources. Its fields are those of the
  spec's ResourceEntry (``title (string, used as the dedup identity), download reference
  (opaque locator, may be absent), derived metadata (anime name, episode number, quality, all
  optional)''), under the names the sources read them by (\<^verbatim>\<open>entry.title\<close>,
  \<^verbatim>\<open>entry.download_url\<close>, \<^verbatim>\<open>entry.anime_name\<close>, \<^verbatim>\<open>entry.episode\<close>, \<^verbatim>\<open>entry.quality\<close>).
\<close>

record AnimeResourceInfo =
  title :: string
  download_url :: "string option"
  anime_name :: "string option"
  episode :: "int option"
  quality :: "string option"

text \<open>
  Python's truth value of an \<^verbatim>\<open>Optional[str]\<close>: \<^verbatim>\<open>None\<close> and the empty string are false.
\<close>

fun truthy :: "string option \<Rightarrow> bool" where
  "truthy None = False"
| "truthy (Some s) = (s \<noteq> [])"

text \<open>
  What \<^verbatim>\<open>asyncio.gather(..., return_exceptions=True)\<close> puts in its result list for one
  coroutine \<^verbatim>\<open>handler.fetch_feed(url)\<close>: the exception it raised (with its message), or the
  value it returned, which is a list of entries or something else.
\<close>

datatype fetch_result =
    Raised string
  | NotAList
  | Entries "AnimeResourceInfo list"

text \<open>
  A website handler (\<^verbatim>\<open>WebsiteBase\<close>) is known by what its \<^verbatim>\<open>fetch_feed\<close> yields for a URL.
  The coroutine object \<^verbatim>\<open>handler.fetch_feed(url)\<close> is the pair of the handler and the URL:
  creating it runs nothing, \<^verbatim>\<open>gather\<close> runs it.
\<close>

record WebsiteBase =
  fetch_feed :: "string \<Rightarrow> fetch_result"

type_synonym coroutine = "WebsiteBase \<times> string"

text \<open>
  Objects that \<^verbatim>\<open>RSSManager\<close> only refers to (the download manager and the website
  factory) are object identities; what they answer is part of the world around the manager.
\<close>

type_synonym ref = nat

text \<open>
  The world one ingestion cycle runs in: the module-level \<^verbatim>\<open>config\<close> and \<^verbatim>\<open>db\<close>, and the
  behaviour of the objects behind the references.
  \<^item> \<open>rss_urls\<close>: \<^verbatim>\<open>config.rss.urls\<close>;
  \<^item> \<open>factory_create f url\<close>: \<^verbatim>\<open>WebsiteFactory.create(url)\<close> on the factory \<open>f\<close>; \<open>Inl\<close> is an
    \<^verbatim>\<open>Exception\<close> raised (with its message), \<open>Inr\<close> the handler returned, possibly \<^verbatim>\<open>None\<close>;
  \<^item> \<open>db_is_downloaded\<close>: \<^verbatim>\<open>db.is_downloaded(title)\<close>, the history oracle;
  \<^item> \<open>dm_is_downloading d\<close>: \<^verbatim>\<open>DownloadManager.is_downloading(entry)\<close> on the manager \<open>d\<close>, the
    task registry.
  These collaborators are not among the sources; they are parameters, and the lookups are
  total and do not change during one cycle.
\<close>

record world =
  rss_urls :: "string list"
  factory_create :: "ref \<Rightarrow> string \<Rightarrow> string + WebsiteBase option"
  db_is_downloaded :: "string \<Rightarrow> bool"
  dm_is_downloading :: "ref \<Rightarrow> AnimeResourceInfo \<Rightarrow> bool"

text \<open>
  The effects a cycle performs on its collaborators, in the order the code performs them.
  Of a logger call only the level is kept. The fetches of one \<^verbatim>\<open>gather\<close> run concurrently;
  they are listed in the order of their results.
\<close>

datatype log_level = DEBUG | INFO | WARNING | ERROR

datatype event =
    Create ref string
  | Fetch string
  | IsDownloaded string
  | IsDownloading ref AnimeResourceInfo
  | Log log_level


subsection \<open>\<^verbatim>\<open>RSSManager\<close> (rss.py)\<close>

text \<open>
  The object has two attributes, \<^verbatim>\<open>_download_manager\<close> (tested for truth before it is used,
  hence optional) and \<^verbatim>\<open>_factory\<close>. Every method takes the object and returns its result, the
  object as the method leaves it, and the effects performed.
\<close>

record RSSManager =
  download_manager :: "ref option"
  factory :: ref

type_synonym 'a run = "'a \<times> RSSManager \<times> event list"

definition result :: "'a run \<Rightarrow> 'a" where
  "result r = fst r"

definition final_self :: "'a run \<Rightarrow> RSSManager" where
  "final_self r = fst (snd r)"

definition effects :: "'a run \<Rightarrow> event list" where
  "effects r = snd (snd r)"

text \<open>\<open>after evs r\<close>: the run \<open>r\<close>, performed after the effects \<open>evs\<close>.\<close>

definition after :: "event list \<Rightarrow> 'a run \<Rightarrow> 'a run" where
  "after evs r = (case r of (x, self, evs') \<Rightarrow> (x, self, evs @ evs'))"

definition get_website_handler :: "world \<Rightarrow> string \<Rightarrow> RSSManager \<Rightarrow> WebsiteBase option run" where
  "get_website_handler w url self =
     (case factory_create w (factory self) url of
        Inr handler \<Rightarrow> (handler, self, [Create (factory self) url])
      | Inl e \<Rightarrow> (None, self, [Create (factory self) url, Log WARNING]))"

text \<open>The loop of \<^verbatim>\<open>_build_fetch_tasks\<close>, with the list \<^verbatim>\<open>tasks\<close> built so far.\<close>

fun build_fetch_tasks_loop ::
  "world \<Rightarrow> string list \<Rightarrow> coroutine list \<Rightarrow> RSSManager \<Rightarrow> coroutine list run" where
  "build_fetch_tasks_loop w [] tasks self = (tasks, self, [])"
| "build_fetch_tasks_loop w (url # urls) tasks self =
     (case get_website_handler w url self of
        (None, self', evs) \<Rightarrow> after evs (build_fetch_tasks_loop w urls tasks self')
      | (Some handler, self', evs) \<Rightarrow>
          after evs (build_fetch_tasks_loop w urls (tasks @ [(handler, url)]) self'))"

definition build_fetch_tasks :: "world \<Rightarrow> string list \<Rightarrow> RSSManager \<Rightarrow> coroutine list run" where
  "build_fetch_tasks w urls self = build_fetch_tasks_loop w urls [] self"

text \<open>
  \<^verbatim>\<open>await asyncio.gather(*tasks, return_exceptions=True)\<close>: one result per coroutine, in the
  order of the coroutines; an exception of one coroutine is its result and touches no other.
\<close>

definition gather :: "coroutine list \<Rightarrow> fetch_result list \<times> event list" where
  "gather tasks =
     (map (\<lambda>(handler, url). fetch_feed handler url) tasks,
      map (\<lambda>(handler, url). Fetch url) tasks)"

definition is_valid_feed_result :: "fetch_result \<Rightarrow> RSSManager \<Rightarrow> bool run" where
  "is_valid_feed_result res self =
     (case res of
        Raised e \<Rightarrow> (False, self, [Log ERROR])
      | NotAList \<Rightarrow> (False, self, [Log ERROR])
      | Entries es \<Rightarrow> (True, self, []))"

definition should_skip_entry :: "world \<Rightarrow> AnimeResourceInfo \<Rightarrow> RSSManager \<Rightarrow> bool run" where
  "should_skip_entry w entry self =
     (if \<not> truthy (download_url entry) then (True, self, [])
      else if db_is_downloaded w (title entry)
        then (True, self, [IsDownloaded (title entry), Log DEBUG])
      else (case download_manager self of
              None \<Rightarrow> (False, self, [IsDownloaded (title entry)])
            | Some dm \<Rightarrow>
                if dm_is_downloading w dm entry
                then (True, self, [IsDownloaded (title entry), IsDownloading dm entry, Log DEBUG])
                else (False, self, [IsDownloaded (title entry), IsDownloading dm entry])))"

text \<open>
  The two nested loops of \<^verbatim>\<open>_collect_new_entries\<close>, with the list \<^verbatim>\<open>new_entries\<close> built so
  far: the inner one over the entries of one valid result, the outer one over the results.
\<close>

fun collect_entries_loop ::
  "world \<Rightarrow> AnimeResourceInfo list \<Rightarrow> AnimeResourceInfo list \<Rightarrow> RSSManager
     \<Rightarrow> AnimeResourceInfo list run" where
  "collect_entries_loop w [] new_entries self = (new_entries, self, [])"
| "collect_entries_loop w (entry # entries) new_entries self =
     (case should_skip_entry w entry self of
        (True, self', evs) \<Rightarrow> after evs (collect_entries_loop w entries new_entries self')
      | (False, self', evs) \<Rightarrow>
          after evs (collect_entries_loop w entries (new_entries @ [entry]) self'))"

fun collect_results_loop ::
  "world \<Rightarrow> fetch_result list \<Rightarrow> AnimeResourceInfo list \<Rightarrow> RSSManager
     \<Rightarrow> AnimeResourceInfo list run" where
  "collect_results_loop w [] new_entries self = (new_entries, self, [])"
| "collect_results_loop w (res # results) new_entries self =
     (case is_valid_feed_result res self of
        (False, self', evs) \<Rightarrow> after evs (collect_results_loop w results new_entries self')
      | (True, self', evs) \<Rightarrow>
          (case collect_entries_loop w (case res of Entries es \<Rightarrow> es | _ \<Rightarrow> []) new_entries self' of
             (new_entries', self'', evs') \<Rightarrow>
               after (evs @ evs') (collect_results_loop w results new_entries' self'')))"

definition collect_new_entries ::
  "world \<Rightarrow> fetch_result list \<Rightarrow> RSSManager \<Rightarrow> AnimeResourceInfo list run" where
  "collect_new_entries w results self = collect_results_loop w results [] self"

definition check_update :: "world \<Rightarrow> RSSManager \<Rightarrow> AnimeResourceInfo list run" where
  "check_update w self =
     (let urls = rss_urls w in
      if urls = [] then ([], self, [])
      else (case build_fetch_tasks w urls self of
              (tasks, self', evs) \<Rightarrow>
                if tasks = [] then ([], self', evs)
                else (case gather tasks of
                        (results, evs') \<Rightarrow>
                          (case collect_new_entries w results self' of
                             (new_entries, self'', evs'') \<Rightarrow>
                               (new_entries, self'',
                                evs @ evs' @ evs''
                                  @ [if new_entries \<noteq> [] then Log INFO else Log DEBUG])))))"


subsection \<open>Vocabulary for the properties of a cycle\<close>

text \<open>
  \<open>tracked\<close> is the third test of \<^verbatim>\<open>_should_skip_entry\<close>, the expression
  \<^verbatim>\<open>self._download_manager and self._download_manager.is_downloading(entry)\<close>: the task
  registry of the manager, if it has one, tracks the entry.
\<close>

definition tracked :: "world \<Rightarrow> RSSManager \<Rightarrow> AnimeResourceInfo \<Rightarrow> bool" where
  "tracked w self entry =
     (case download_manager self of None \<Rightarrow> False | Some dm \<Rightarrow> dm_is_downloading w dm entry)"

text \<open>An entry survives the three filters: it has a download reference, the history oracle
  does not report its title as obtained, and the task registry does not track it.\<close>

definition survives :: "world \<Rightarrow> RSSManager \<Rightarrow> AnimeResourceInfo \<Rightarrow> bool" where
  "survives w self entry =
     (truthy (download_url entry) \<and> \<not> db_is_downloaded w (title entry) \<and> \<not> tracked w self entry)"

text \<open>
  One feed source is one configured URL. \<open>handler_of\<close> is the handler the factory of the
  manager gives for it, if any; \<open>source_fails\<close> lists the three ways a source can fail (no
  handler can be created, the fetch raises, the fetch returns something that is not a list);
  \<open>source_entries\<close> are the entries of a source that was fetched successfully, and
  \<open>fetched_entries\<close> those of all configured sources, in the order of the configuration.
\<close>

definition handler_of :: "world \<Rightarrow> RSSManager \<Rightarrow> string \<Rightarrow> WebsiteBase option" where
  "handler_of w self url =
     (case factory_create w (factory self) url of Inl e \<Rightarrow> None | Inr handler \<Rightarrow> handler)"


fun entries_of :: "fetch_result \<Rightarrow> AnimeResourceInfo list" where
  "entries_of (Entries es) = es"
| "entries_of (Raised e) = []"
| "entries_of NotAList = []"

definition source_task :: "world \<Rightarrow> RSSManager \<Rightarrow> string \<Rightarrow> coroutine list" where
  "source_task w self url =
     (case handler_of w self url of None \<Rightarrow> [] | Some handler \<Rightarrow> [(handler, url)])"

definition source_entries :: "world \<Rightarrow> RSSManager \<Rightarrow> string \<Rightarrow> AnimeResourceInfo list" where
  "source_entries w self url =
     (case handler_of w self url of
        None \<Rightarrow> []
      | Some handler \<Rightarrow> entries_of (fetch_feed handler url))"

definition fetched_entries :: "world \<Rightarrow> RSSManager \<Rightarrow> AnimeResourceInfo list" where
  "fetched_entries w self = concat (map (source_entries w self) (rss_urls w))"

text \<open>What a list of effects holds of each kind: the URLs fetched, the titles the history
  oracle was asked about, the entries the task registry was asked about.\<close>

fun fetches :: "event list \<Rightarrow> string list" where
  "fetches [] = []"
| "fetches (Fetch url # evs) = url # fetches evs"
| "fetches (ev # evs) = fetches evs"

fun history_lookups :: "event list \<Rightarrow> string list" where
  "history_lookups [] = []"
| "history_lookups (IsDownloaded t # evs) = t # history_lookups evs"
| "history_lookups (ev # evs) = history_lookups evs"

fun registry_lookups :: "event list \<Rightarrow> AnimeResourceInfo list" where
  "registry_lookups [] = []"
| "registry_lookups (IsDownloading dm entry # evs) = entry # registry_lookups evs"
| "registry_lookups (ev # evs) = registry_lookups evs"

text \<open>The lookups that the filters make for a list of entries, each filter seeing only what
  the one before it let through.\<close>

definition history_asked :: "AnimeResourceInfo list \<Rightarrow> string list" where
  "history_asked es = map title (filter (\<lambda>e. truthy (download_url e)) es)"

definition registry_asked ::
  "world \<Rightarrow> RSSManager \<Rightarrow> AnimeResourceInfo list \<Rightarrow> AnimeResourceInfo list" where
  "registry_asked w self es =
     (case download_manager self of
        None \<Rightarrow> []
      | Some dm \<Rightarrow>
          filter (\<lambda>e. \<not> db_is_downloaded w (title e)) (filter (\<lambda>e. truthy (download_url e)) es))"

text \<open>\<open>quiet_run r x self fs hs rs\<close>: the run \<open>r\<close> returns \<open>x\<close>, leaves the object as \<open>self\<close>, and
  performs exactly the fetches \<open>fs\<close>, the history lookups \<open>hs\<close> and the registry lookups \<open>rs\<close>.\<close>

definition quiet_run ::
  "'a run \<Rightarrow> 'a \<Rightarrow> RSSManager \<Rightarrow> string list \<Rightarrow> string list \<Rightarrow> AnimeResourceInfo list \<Rightarrow> bool" where
  "quiet_run r x self fs hs rs =
     (result r = x \<and> final_self r = self \<and> fetches (effects r) = fs
      \<and> history_lookups (effects r) = hs \<and> registry_lookups (effects r) = rs)"


subsection \<open>Example inputs\<close>

text \<open>
  A small configuration on which the properties are exercised: the entry of the spec's
  scenario and an entry without download reference, one handler serving a feed that answers
  (\<open>good\<close>), a feed whose fetch raises (\<open>down\<close>) and feeds returning no list, a factory that
  has no handler for the URL \<open>bad\<close>, an empty history and an empty task registry.
\<close>

definition entry_a :: AnimeResourceInfo where
  "entry_a = \<lparr>title = ''Show S01E05'', download_url = Some ''magnet:abc'', anime_name = None,
     episode = None, quality = None\<rparr>"

definition entry_b :: AnimeResourceInfo where
  "entry_b = \<lparr>title = ''Show S01E06'', download_url = None, anime_name = None,
     episode = None, quality = None\<rparr>"

definition example_handler :: WebsiteBase where
  "example_handler =
     \<lparr>fetch_feed = (\<lambda>url. if url = ''good'' then Entries [entry_a, entry_b]
                          else if url = ''down'' then Raised ''timeout'' else NotAList)\<rparr>"

definition example_world :: world where
  "example_world =
     \<lparr>rss_urls = [''down'', ''good''],
      factory_create = (\<lambda>f url. if url = ''bad'' then Inl ''unsupported''
                                 else Inr (Some example_handler)),
      db_is_downloaded = (\<lambda>t. False),
      dm_is_downloading = (\<lambda>dm entry. False)\<rparr>"

definition example_manager :: RSSManager where
  "example_manager = \<lparr>download_manager = Some 1, factory = 0\<rparr>"


section \<open>Properties of the transition constructors\<close>

text \<open>
  Claim C4. For each of the four semantic constructors \<^verbatim>\<open>ok\<close>, \<^verbatim>\<open>transition\<close>, \<^verbatim>\<open>poll\<close> and
  \<^verbatim>\<open>fail\<close>, and for all their arguments, the value built has its \<^verbatim>\<open>error_message\<close> populated
  (different from \<^verbatim>\<open>None\<close>) exactly when its \<^verbatim>\<open>success\<close> flag is false.
\<close>

theorem error_message_iff_not_success:
  "(error_message (ok ns) \<noteq> None) = (\<not> success (ok ns))
   \<and> (error_message (transition s) \<noteq> None) = (\<not> success (transition s))
   \<and> (error_message (poll s d) \<noteq> None) = (\<not> success (poll s d))
   \<and> (error_message (fail msg) \<noteq> None) = (\<not> success (fail msg))"
  by (simp add: ok_def transition_def poll_def fail_def)

text \<open>
  Claim C5, as stated, asks that \<^verbatim>\<open>poll(s, d)\<close> succeeds, names \<open>s\<close> as next state, has no error
  message, stores \<open>d\<close> as its delay, and that this delay is never zero. The constructor stores
  whatever delay it is given, so the last part fails for \<^verbatim>\<open>poll(Downloading, 0)\<close>.
\<close>

theorem poll_zero_delay_counterexample:
  "\<not> (success (poll Downloading 0)
      \<and> next_state (poll Downloading 0) = Some Downloading
      \<and> error_message (poll Downloading 0) = None
      \<and> delay_seconds (poll Downloading 0) = 0
      \<and> delay_seconds (poll Downloading 0) \<noteq> 0)"
  by (simp add: poll_def)

text \<open>
  Claim C5, amended. For every state \<open>s\<close> and every delay \<open>d\<close>, \<^verbatim>\<open>poll(s, d)\<close> has \<^verbatim>\<open>success\<close> true,
  \<^verbatim>\<open>next_state\<close> equal to \<open>s\<close>, no error message, and \<^verbatim>\<open>delay_seconds\<close> equal to the given \<open>d\<close>;
  the delay it carries is nonzero exactly when \<open>d\<close> is.
\<close>

theorem poll_fields:
  "success (poll s d)
   \<and> next_state (poll s d) = Some s
   \<and> error_message (poll s d) = None
   \<and> delay_seconds (poll s d) = d
   \<and> (delay_seconds (poll s d) \<noteq> 0) = (d \<noteq> 0)"
  by (simp add: poll_def)

text \<open>
  Claim C9. The constructors are interdefinable: for every state \<open>s\<close>, \<^verbatim>\<open>transition(s)\<close>,
  \<^verbatim>\<open>ok(next_state=s)\<close> and \<^verbatim>\<open>poll(s, 0)\<close> are the same value, whose fields are \<^verbatim>\<open>success\<close> true,
  \<^verbatim>\<open>next_state\<close> \<open>s\<close>, \<^verbatim>\<open>delay_seconds\<close> zero and \<^verbatim>\<open>error_message\<close> \<^verbatim>\<open>None\<close>.
\<close>

theorem constructors_interdefinable:
  "transition s = ok (Some s)
   \<and> ok (Some s) = poll s 0
   \<and> poll s 0 = \<lparr>success = True, next_state = Some s, delay_seconds = 0, error_message = None\<rparr>"
  by (simp add: ok_def transition_def poll_def)


section \<open>The conversation history is bounded\<close>

lemma append_history_drop:
  assumes "1 \<le> m"
  shows "append_history m h u r =
         drop (length h + 2 - nat (2 * m))
           (h @ [[(''role'', ''user''), (''content'', u)],
                 [(''role'', ''assistant''), (''content'', r)]])"
proof (cases "int (length h) + 2 > 2 * m")
  case True
  then have "nat (int (length h) + 2 - 2 * m) = length h + 2 - nat (2 * m)"
    using assms by linarith
  then show ?thesis
    using True assms
    by (simp add: append_history_def slice_from_def Let_def max_def mult.commute add.commute)
next
  case False
  then have "length h + 2 - nat (2 * m) = 0" by linarith
  then show ?thesis
    using False by (simp add: append_history_def Let_def mult.commute add.commute)
qed

text \<open>
  Claim C10. If \<^verbatim>\<open>assistant.max_history\<close> is at least 1 then, for every history list and
  every pair of a user text and a response, the list after \<^verbatim>\<open>_append_history\<close> holds at most
  \<^verbatim>\<open>2 * max_history\<close> messages. When nothing has to be trimmed it is the old list followed
  by the new turn; when trimming occurs it is exactly the last \<^verbatim>\<open>2 * max_history\<close>
  messages of that list, in their order. In both cases it ends with the turn just appended.
\<close>

theorem append_history_bounded:
  assumes "1 \<le> m"
  shows "int (length (append_history m h u r)) \<le> 2 * m
    \<and> (int (length h) + 2 \<le> 2 * m \<longrightarrow>
          append_history m h u r
          = h @ [[(''role'', ''user''), (''content'', u)],
                 [(''role'', ''assistant''), (''content'', r)]])
    \<and> (int (length h) + 2 > 2 * m \<longrightarrow>
          append_history m h u r
          = drop (length h + 2 - nat (2 * m))
              (h @ [[(''role'', ''user''), (''content'', u)],
                    [(''role'', ''assistant''), (''content'', r)]])
          \<and> int (length (append_history m h u r)) = 2 * m)
    \<and> (\<exists>kept. append_history m h u r
          = kept @ [[(''role'', ''user''), (''content'', u)],
                    [(''role'', ''assistant''), (''content'', r)]])"
proof -
  let ?turn = "[[(''role'', ''user''), (''content'', u)],
                [(''role'', ''assistant''), (''content'', r)]]"
  let ?k = "length h + 2 - nat (2 * m)"
  have eq: "append_history m h u r = drop ?k (h @ ?turn)"
    using assms by (rule append_history_drop)
  have k: "?k \<le> length h" using assms by linarith
  then have split: "drop ?k (h @ ?turn) = drop ?k h @ ?turn" by simp
  have len: "int (length (append_history m h u r)) \<le> 2 * m"
    unfolding eq using assms by simp
  have untrimmed: "int (length h) + 2 \<le> 2 * m \<longrightarrow> append_history m h u r = h @ ?turn"
  proof
    assume "int (length h) + 2 \<le> 2 * m"
    then have "?k = 0" by linarith
    then show "append_history m h u r = h @ ?turn" unfolding eq by simp
  qed
  have trimmed: "int (length h) + 2 > 2 * m
      \<longrightarrow> int (length (append_history m h u r)) = 2 * m"
    unfolding eq using assms by simp
  have ends: "\<exists>kept. append_history m h u r = kept @ ?turn"
    unfolding eq split by blast
  from len untrimmed trimmed eq ends show ?thesis by blast
qed

theorem append_history_bounded_witness:
  "(1::int) \<le> 1
   \<and> append_history 1
        [[(''role'', ''user''), (''content'', ''a'')],
         [(''role'', ''assistant''), (''content'', ''b'')]] ''c'' ''d''
       = [[(''role'', ''user''), (''content'', ''c'')],
          [(''role'', ''assistant''), (''content'', ''d'')]]
   \<and> int (length (append_history 1
        [[(''role'', ''user''), (''content'', ''a'')],
         [(''role'', ''assistant''), (''content'', ''b'')]] ''c'' ''d'')) = 2 * 1"
  using append_history_bounded [of 1
      "[[(''role'', ''user''), (''content'', ''a'')],
        [(''role'', ''assistant''), (''content'', ''b'')]]" "''c''" "''d''"]
  by simp


section \<open>One ingestion cycle\<close>

subsection \<open>Effects of a kind, over appended lists\<close>

lemma fetches_append [simp]: "fetches (xs @ ys) = fetches xs @ fetches ys"
  by (induction xs rule: fetches.induct) simp_all

lemma history_lookups_append [simp]:
  "history_lookups (xs @ ys) = history_lookups xs @ history_lookups ys"
  by (induction xs rule: history_lookups.induct) simp_all

lemma registry_lookups_append [simp]:
  "registry_lookups (xs @ ys) = registry_lookups xs @ registry_lookups ys"
  by (induction xs rule: registry_lookups.induct) simp_all

lemma history_asked_simps [simp]:
  "history_asked [] = []"
  "history_asked (e # es) = (if truthy (download_url e) then [title e] else []) @ history_asked es"
  "history_asked (es @ es') = history_asked es @ history_asked es'"
  by (simp_all add: history_asked_def)

lemma registry_asked_simps [simp]:
  "registry_asked w self [] = []"
  "registry_asked w self (e # es) =
     (if truthy (download_url e) \<and> \<not> db_is_downloaded w (title e) \<and> download_manager self \<noteq> None
      then [e] else []) @ registry_asked w self es"
  "registry_asked w self (es @ es') = registry_asked w self es @ registry_asked w self es'"
  by (simp_all add: registry_asked_def split: option.split)

subsection \<open>Each method, as a run\<close>

lemma quiet_run_triple:
  assumes "quiet_run r x self fs hs rs"
  obtains evs where "r = (x, self, evs)" "fetches evs = fs" "history_lookups evs = hs"
    "registry_lookups evs = rs"
  using assms by (cases r) (auto simp: quiet_run_def result_def final_self_def effects_def)

lemma quiet_run_after:
  assumes "quiet_run r x self fs hs rs"
    and "fetches evs = fs0" and "history_lookups evs = hs0" and "registry_lookups evs = rs0"
  shows "quiet_run (after evs r) x self (fs0 @ fs) (hs0 @ hs) (rs0 @ rs)"
  using assms
  by (cases r) (auto simp: quiet_run_def after_def result_def final_self_def effects_def)

lemma get_website_handler_run:
  "quiet_run (get_website_handler w url self) (handler_of w self url) self [] [] []"
  by (simp add: quiet_run_def get_website_handler_def handler_of_def result_def final_self_def
      effects_def split: sum.split)

lemma build_fetch_tasks_loop_run:
  "quiet_run (build_fetch_tasks_loop w urls tasks self)
     (tasks @ concat (map (source_task w self) urls)) self [] [] []"
proof (induction urls arbitrary: tasks)
  case Nil
  show ?case by (simp add: quiet_run_def result_def final_self_def effects_def)
next
  case (Cons url urls)
  obtain evs where h: "get_website_handler w url self = (handler_of w self url, self, evs)"
    and evs: "fetches evs = []" "history_lookups evs = []" "registry_lookups evs = []"
    using get_website_handler_run by (rule quiet_run_triple)
  show ?case
  proof (cases "handler_of w self url")
    case None
    with h quiet_run_after [OF Cons.IH [of tasks] evs] show ?thesis
      by (simp add: source_task_def)
  next
    case (Some handler)
    with h quiet_run_after [OF Cons.IH [of "tasks @ [(handler, url)]"] evs] show ?thesis
      by (simp add: source_task_def)
  qed
qed

lemma should_skip_entry_run:
  "quiet_run (should_skip_entry w entry self) (\<not> survives w self entry) self []
     (history_asked [entry]) (registry_asked w self [entry])"
  by (simp add: quiet_run_def should_skip_entry_def survives_def tracked_def result_def
      final_self_def effects_def split: option.split)

lemma collect_entries_loop_run:
  "quiet_run (collect_entries_loop w entries new_entries self)
     (new_entries @ filter (survives w self) entries) self []
     (history_asked entries) (registry_asked w self entries)"
proof (induction entries arbitrary: new_entries)
  case Nil
  show ?case by (simp add: quiet_run_def result_def final_self_def effects_def)
next
  case (Cons entry entries)
  obtain evs where s: "should_skip_entry w entry self = (\<not> survives w self entry, self, evs)"
    and evs: "fetches evs = []" "history_lookups evs = history_asked [entry]"
      "registry_lookups evs = registry_asked w self [entry]"
    using should_skip_entry_run by (rule quiet_run_triple)
  have cons: "history_asked [entry] @ history_asked entries = history_asked (entry # entries)"
    "registry_asked w self [entry] @ registry_asked w self entries
     = registry_asked w self (entry # entries)"
    by simp_all
  show ?case
  proof (cases "survives w self entry")
    case True
    with s quiet_run_after [OF Cons.IH [of "new_entries @ [entry]"] evs] show ?thesis
      unfolding cons by simp
  next
    case False
    with s quiet_run_after [OF Cons.IH [of new_entries] evs] show ?thesis
      unfolding cons by simp
  qed
qed

lemma collect_results_loop_run:
  "quiet_run (collect_results_loop w results new_entries self)
     (new_entries @ filter (survives w self) (concat (map entries_of results))) self []
     (history_asked (concat (map entries_of results)))
     (registry_asked w self (concat (map entries_of results)))"
proof (induction results arbitrary: new_entries)
  case Nil
  show ?case by (simp add: quiet_run_def result_def final_self_def effects_def)
next
  case (Cons res results)
  have logged: "fetches [Log ERROR] = []" "history_lookups [Log ERROR] = []"
    "registry_lookups [Log ERROR] = []" by simp_all
  show ?case
  proof (cases res)
    case (Raised e)
    with quiet_run_after [OF Cons.IH [of new_entries] logged] show ?thesis
      by (simp add: is_valid_feed_result_def)
  next
    case NotAList
    with quiet_run_after [OF Cons.IH [of new_entries] logged] show ?thesis
      by (simp add: is_valid_feed_result_def)
  next
    case (Entries es)
    obtain evs where c: "collect_entries_loop w es new_entries self
        = (new_entries @ filter (survives w self) es, self, evs)"
      and evs: "fetches evs = []" "history_lookups evs = history_asked es"
        "registry_lookups evs = registry_asked w self es"
      using collect_entries_loop_run by (rule quiet_run_triple)
    from Entries c
      quiet_run_after [OF Cons.IH [of "new_entries @ filter (survives w self) es"] evs]
    show ?thesis
      by (simp add: is_valid_feed_result_def)
  qed
qed

lemma gather_run:
  "fst (gather tasks) = map (\<lambda>(handler, url). fetch_feed handler url) tasks
   \<and> fetches (snd (gather tasks)) = map snd tasks
   \<and> history_lookups (snd (gather tasks)) = []
   \<and> registry_lookups (snd (gather tasks)) = []"
  by (induction tasks) (auto simp: gather_def)

lemma entries_of_gather:
  "concat (map entries_of (fst (gather (concat (map (source_task w self) urls)))))
   = concat (map (source_entries w self) urls)"
  by (induction urls) (auto simp: gather_def source_task_def source_entries_def split: option.split)

lemma no_tasks_no_entries:
  assumes "concat (map (source_task w self) urls) = []"
  shows "concat (map (source_entries w self) urls) = []"
  using entries_of_gather [of w self urls] assms by (simp add: gather_def)

subsection \<open>The whole cycle\<close>

lemma check_update_run:
  "quiet_run (check_update w self)
     (filter (survives w self) (fetched_entries w self)) self
     (map snd (concat (map (source_task w self) (rss_urls w))))
     (history_asked (fetched_entries w self))
     (registry_asked w self (fetched_entries w self))"
proof (cases "rss_urls w = []")
  case True
  then show ?thesis
    by (simp add: quiet_run_def check_update_def fetched_entries_def result_def final_self_def
        effects_def)
next
  case False
  define tasks where "tasks = concat (map (source_task w self) (rss_urls w))"
  obtain evs where b: "build_fetch_tasks w (rss_urls w) self = (tasks, self, evs)"
    and evs: "fetches evs = []" "history_lookups evs = []" "registry_lookups evs = []"
    using build_fetch_tasks_loop_run [of w "rss_urls w" "[]" self]
    unfolding build_fetch_tasks_def tasks_def by (rule quiet_run_triple) simp
  show ?thesis
  proof (cases "tasks = []")
    case True
    then have "fetched_entries w self = []"
      unfolding fetched_entries_def tasks_def by (rule no_tasks_no_entries)
    with False True b evs show ?thesis
      unfolding tasks_def [symmetric]
      by (simp add: quiet_run_def check_update_def result_def final_self_def effects_def)
  next
    case nonempty: False
    obtain results evs' where g: "gather tasks = (results, evs')"
      by (cases "gather tasks")
    from g have res: "concat (map entries_of results) = fetched_entries w self"
      using entries_of_gather [of w self "rss_urls w"]
      by (simp add: fetched_entries_def tasks_def)
    from g have evs': "fetches evs' = map snd tasks" "history_lookups evs' = []"
      "registry_lookups evs' = []"
      using gather_run [of tasks] by simp_all
    obtain evs'' where c: "collect_new_entries w results self
        = (filter (survives w self) (fetched_entries w self), self, evs'')"
      and evs'': "fetches evs'' = []"
        "history_lookups evs'' = history_asked (fetched_entries w self)"
        "registry_lookups evs'' = registry_asked w self (fetched_entries w self)"
      using collect_results_loop_run [of w results "[]" self]
      unfolding collect_new_entries_def res by (rule quiet_run_triple) simp
    from False nonempty b g c evs evs' evs'' show ?thesis
      unfolding tasks_def [symmetric]
      by (simp add: quiet_run_def check_update_def result_def final_self_def effects_def)
  qed
qed

subsection \<open>Consequences used below\<close>

lemma check_update_result:
  "result (check_update w self)
   = concat (map (\<lambda>url. filter (survives w self) (source_entries w self url)) (rss_urls w))"
  using check_update_run [of w self]
  by (simp add: quiet_run_def fetched_entries_def filter_concat comp_def)


lemma same_feed_same_sources:
  assumes "factory_create w' = factory_create w"
  shows "source_entries w' self = source_entries w self"
  using assms by (simp add: source_entries_def handler_of_def fun_eq_iff)

lemma survives_rss_urls [simp]: "survives (w\<lparr>rss_urls := urls\<rparr>) self = survives w self"
  by (simp add: survives_def tracked_def fun_eq_iff split: option.split)

lemma source_entries_rss_urls [simp]:
  "source_entries (w\<lparr>rss_urls := urls\<rparr>) self = source_entries w self"
  by (rule same_feed_same_sources) simp

lemmas example_defs = entry_a_def entry_b_def example_handler_def example_world_def
  example_manager_def

text \<open>The model runs: one cycle on the example inputs, evaluated from the definitions of
  the methods alone.\<close>

lemma check_update_example:
  "check_update example_world example_manager
   = ([entry_a], example_manager,
      [Create 0 ''down'', Create 0 ''good'', Fetch ''down'', Fetch ''good'',
       Log ERROR, IsDownloaded ''Show S01E05'', IsDownloading 1 entry_a, Log INFO])"
  by (simp add: check_update_def build_fetch_tasks_def get_website_handler_def after_def
      gather_def collect_new_entries_def is_valid_feed_result_def should_skip_entry_def
      example_defs)

subsection \<open>The claims about a cycle\<close>

text \<open>
  Claim C1. The entries of all successfully fetched feed results pass the three filters in
  order: (a) an entry without download reference is discarded (Python's truth value: the
  reference is \<^verbatim>\<open>None\<close> or empty); (b) otherwise it is discarded if \<^verbatim>\<open>db.is_downloaded\<close> reports
  its title as obtained; (c) otherwise it is discarded if the task registry tracks it. The
  output of \<^verbatim>\<open>check_update\<close> is exactly the list of the entries that survive, in the order of
  the feeds. The order of the filters shows in the lookups performed: the history oracle is
  asked about exactly the entries that passed (a), and the task registry (when the manager has
  one) about exactly those that passed (a) and (b).
\<close>

theorem check_update_filters_in_order:
  "result (check_update w self)
     = filter (\<lambda>e. \<not> tracked w self e)
         (filter (\<lambda>e. \<not> db_is_downloaded w (title e))
           (filter (\<lambda>e. truthy (download_url e)) (fetched_entries w self)))
   \<and> history_lookups (effects (check_update w self))
     = map title (filter (\<lambda>e. truthy (download_url e)) (fetched_entries w self))
   \<and> registry_lookups (effects (check_update w self))
     = (case download_manager self of
          None \<Rightarrow> []
        | Some dm \<Rightarrow>
            filter (\<lambda>e. \<not> db_is_downloaded w (title e))
              (filter (\<lambda>e. truthy (download_url e)) (fetched_entries w self)))"
proof -
  have "filter (survives w self) es
      = filter (\<lambda>e. \<not> tracked w self e)
          (filter (\<lambda>e. \<not> db_is_downloaded w (title e))
            (filter (\<lambda>e. truthy (download_url e)) es))" for es
    by (induction es) (simp_all add: survives_def)
  with check_update_run [of w self] show ?thesis
    by (simp add: quiet_run_def history_asked_def registry_asked_def)
qed



text \<open>
  Claim C3. Ingestion is idempotent. Take a second world with the same feed content (the
  same configured URLs and the same factory, hence the same handlers and fetch results) in
  which every entry returned by the first call is recorded as obtained or tracked by the task
  registry, and in which whatever was obtained or tracked before still is. Then the second
  call of \<^verbatim>\<open>check_update\<close> returns the empty list.
\<close>

theorem second_cycle_returns_nothing:
  assumes same_feed: "rss_urls w' = rss_urls w" "factory_create w' = factory_create w"
    and registered: "\<forall>e \<in> set (result (check_update w self)).
        db_is_downloaded w' (title e) \<or> tracked w' self e"
    and history_kept: "\<forall>t. db_is_downloaded w t \<longrightarrow> db_is_downloaded w' t"
    and registry_kept: "\<forall>e. tracked w self e \<longrightarrow> tracked w' self e"
  shows "result (check_update w' self) = []"
proof -
  have first: "result (check_update w self) = filter (survives w self) (fetched_entries w self)"
    using check_update_run [of w self] by (simp add: quiet_run_def)
  have feed: "fetched_entries w' self = fetched_entries w self"
    using same_feed(1) same_feed_same_sources [OF same_feed(2), of self]
    by (simp add: fetched_entries_def)
  have "\<not> survives w' self e" if "e \<in> set (fetched_entries w self)" for e
  proof (cases "survives w self e")
    case True
    with that first have "e \<in> set (result (check_update w self))" by simp
    with registered have "db_is_downloaded w' (title e) \<or> tracked w' self e" by blast
    then show ?thesis by (auto simp: survives_def)
  next
    case False
    with history_kept registry_kept show ?thesis by (auto simp: survives_def)
  qed
  then have "filter (survives w' self) (fetched_entries w self) = []"
    by (simp add: filter_empty_conv)
  with check_update_run [of w' self] feed show ?thesis
    by (simp add: quiet_run_def)
qed

theorem second_cycle_returns_nothing_witness:
  "result (check_update example_world example_manager) = [entry_a]
   \<and> result (check_update
        (example_world\<lparr>dm_is_downloading := (\<lambda>dm entry. dm = 1 \<and> title entry = ''Show S01E05'')\<rparr>)
        example_manager) = []"
proof -
  let ?w' = "example_world\<lparr>dm_is_downloading := (\<lambda>dm entry. dm = 1 \<and> title entry = ''Show S01E05'')\<rparr>"
  have first: "result (check_update example_world example_manager) = [entry_a]"
    by (simp add: check_update_result source_entries_def handler_of_def survives_def tracked_def
        example_defs)
  have "result (check_update ?w' example_manager) = []"
  proof (rule second_cycle_returns_nothing [of ?w' example_world])
    show "rss_urls ?w' = rss_urls example_world" by simp
    show "factory_create ?w' = factory_create example_world" by simp
    show "\<forall>e \<in> set (result (check_update example_world example_manager)).
        db_is_downloaded ?w' (title e) \<or> tracked ?w' example_manager e"
      unfolding first by (simp add: tracked_def example_defs)
    show "\<forall>t. db_is_downloaded example_world t \<longrightarrow> db_is_downloaded ?w' t" by simp
    show "\<forall>e. tracked example_world example_manager e \<longrightarrow> tracked ?w' example_manager e"
      by (simp add: tracked_def example_defs)
  qed
  with first show ?thesis by simp
qed

text \<open>
  Claim C6. A cycle retains no state of its own: \<^verbatim>\<open>check_update\<close> leaves the \<^verbatim>\<open>RSSManager\<close>
  object as it found it, that is, both its download-manager reference and its website factory
  are unchanged. A cycle run next, from the object as the first one left it and in the same
  world, is therefore the same run: two consecutive cycles can differ only through the world,
  which is where the task registry and the history oracle are.
\<close>

theorem check_update_keeps_manager:
  "final_self (check_update w self) = self
   \<and> download_manager (final_self (check_update w self)) = download_manager self
   \<and> factory (final_self (check_update w self)) = factory self
   \<and> check_update w (final_self (check_update w self)) = check_update w self"
  using check_update_run [of w self] by (simp add: quiet_run_def)

text \<open>
  Claim C8. If the list of configured URLs is empty, or the factory gives a handler for none
  of them, then \<^verbatim>\<open>check_update\<close> returns the empty list and performs no fetch, no lookup in
  the history oracle and no lookup in the task registry.
\<close>

theorem no_handler_no_lookup:
  assumes "rss_urls w = [] \<or> (\<forall>url \<in> set (rss_urls w). handler_of w self url = None)"
  shows "result (check_update w self) = []
    \<and> fetches (effects (check_update w self)) = []
    \<and> history_lookups (effects (check_update w self)) = []
    \<and> registry_lookups (effects (check_update w self)) = []"
proof -
  from assms have none: "\<forall>url \<in> set (rss_urls w). handler_of w self url = None" by auto
  then have tasks: "concat (map (source_task w self) (rss_urls w)) = []"
    by (simp add: source_task_def)
  from none have "fetched_entries w self = []"
    by (simp add: fetched_entries_def source_entries_def)
  with tasks check_update_run [of w self] show ?thesis
    by (simp add: quiet_run_def)
qed

theorem no_handler_no_lookup_witness:
  "check_update (example_world\<lparr>rss_urls := []\<rparr>) example_manager = ([], example_manager, [])
   \<and> result (check_update (example_world\<lparr>rss_urls := [''bad'', ''bad'']\<rparr>) example_manager) = []
   \<and> fetches (effects (check_update (example_world\<lparr>rss_urls := [''bad'', ''bad'']\<rparr>) example_manager)) = []
   \<and> history_lookups (effects (check_update (example_world\<lparr>rss_urls := [''bad'', ''bad'']\<rparr>) example_manager)) = []
   \<and> registry_lookups (effects (check_update (example_world\<lparr>rss_urls := [''bad'', ''bad'']\<rparr>) example_manager)) = []"
proof -
  have "\<forall>url \<in> set (rss_urls (example_world\<lparr>rss_urls := [''bad'', ''bad'']\<rparr>)).
      handler_of (example_world\<lparr>rss_urls := [''bad'', ''bad'']\<rparr>) example_manager url = None"
    by (simp add: handler_of_def example_defs)
  then show ?thesis
    using no_handler_no_lookup [of "example_world\<lparr>rss_urls := [''bad'', ''bad'']\<rparr>" example_manager]
    by (simp add: check_update_def)
qed

end
